theory Spec2Isabelle
  imports Complex_Main
begin

section \<open>Background estimators of trippy's bgFinder\<close>

text \<open>
  A shallow embedding of the class \<open>bgFinder\<close> of \<open>src/trippy/bgFinder.py\<close> (Python 2,
  numpy, scipy). The sample is a list of finite numbers. Finite float64 arithmetic is
  taken to be exact arithmetic on \<open>real\<close>: rounding, overflow, underflow and signed
  zeros are outside the model. What numpy does where real arithmetic has no answer is
  written out: a float64 value is a finite real, plus or minus infinity, or NaN, and
  the operations below return infinity or NaN where numpy does (a division by zero
  gives infinity or NaN with a warning, the logarithm of zero is minus infinity), so
  that no case of the source is hidden behind HOL's total division or logarithm.

  The simplex optimizer \<open>scipy.optimize.fmin\<close> is a library routine outside the
  repository. It is a parameter of the model: any function from an objective and a
  starting point to a parameter pair. It raises nothing for a sample of any shape
  (without \<open>full_output\<close> it reports a failure to converge only as a warning, which
  \<open>disp=False\<close> silences), so it is total here. The plotting branch of
  \<open>smartBackground\<close> (\<open>display\<close>) and its \<open>verbose\<close> printing do not change the
  value returned and are left out.

  Two float64 computations decide an integer outcome, which rounding can change: the
  bin edges that \<open>num.arange\<close> returns (their number is the ceiling of a rounded
  quotient, and the counts compare the sample with the rounded edges), and the product
  \<open>self.data*multi\<close> that \<open>astype(int)\<close> casts. The methods that use them are modelled
  with these two computations as parameters (\<open>priv_ahist_with\<close>, \<open>priv_stats_with\<close>,
  \<open>histMode_with\<close>, \<open>priv_fraserMode_with\<close>), so that what is proved of them for every
  value of the parameter holds whatever the rounding. The methods without the suffix
  are their instances in exact arithmetic.
\<close>

subsection \<open>float64 values and the numpy operations the source uses\<close>

datatype float64 = Fin real | PInf | NInf | NaN

fun fneg :: "float64 \<Rightarrow> float64" where
  "fneg (Fin x) = Fin (- x)"
| "fneg PInf = NInf"
| "fneg NInf = PInf"
| "fneg NaN = NaN"

fun fadd :: "float64 \<Rightarrow> float64 \<Rightarrow> float64" where
  "fadd (Fin x) (Fin y) = Fin (x + y)"
| "fadd NaN _ = NaN"
| "fadd _ NaN = NaN"
| "fadd PInf NInf = NaN"
| "fadd NInf PInf = NaN"
| "fadd PInf _ = PInf"
| "fadd _ PInf = PInf"
| "fadd NInf _ = NInf"
| "fadd _ NInf = NInf"

definition fsub :: "float64 \<Rightarrow> float64 \<Rightarrow> float64" where
  "fsub a b = fadd a (fneg b)"

text \<open>The sign of a float64 value: 1, -1, or 0 for a finite zero; NaN has none.\<close>

fun fsign :: "float64 \<Rightarrow> int" where
  "fsign (Fin x) = (if 0 < x then 1 else if x < 0 then - 1 else 0)"
| "fsign PInf = 1"
| "fsign NInf = - 1"
| "fsign NaN = 0"

definition inf_of_sign :: "int \<Rightarrow> float64" where
  "inf_of_sign k = (if 0 < k then PInf else if k < 0 then NInf else NaN)"

fun fmul :: "float64 \<Rightarrow> float64 \<Rightarrow> float64" where
  "fmul (Fin x) (Fin y) = Fin (x * y)"
| "fmul NaN _ = NaN"
| "fmul _ NaN = NaN"
| "fmul a b = inf_of_sign (fsign a * fsign b)"

fun fdiv :: "float64 \<Rightarrow> float64 \<Rightarrow> float64" where
  "fdiv (Fin x) (Fin y) = (if y = 0 then inf_of_sign (fsign (Fin x)) else Fin (x / y))"
| "fdiv NaN _ = NaN"
| "fdiv _ NaN = NaN"
| "fdiv (Fin x) _ = Fin 0"
| "fdiv PInf (Fin y) = (if y < 0 then NInf else PInf)"
| "fdiv NInf (Fin y) = (if y < 0 then PInf else NInf)"
| "fdiv _ _ = NaN"

text \<open>\<open>x**0.5\<close>: the C \<open>pow\<close>, NaN below zero, plus infinity at both infinities.\<close>

fun fpow_half :: "float64 \<Rightarrow> float64" where
  "fpow_half (Fin x) = (if x < 0 then NaN else Fin (sqrt x))"
| "fpow_half PInf = PInf"
| "fpow_half NInf = PInf"
| "fpow_half NaN = NaN"

text \<open>\<open>num.log\<close>: minus infinity at zero, NaN below it.\<close>

fun flog :: "float64 \<Rightarrow> float64" where
  "flog (Fin x) = (if x < 0 then NaN else if x = 0 then NInf else Fin (ln x))"
| "flog PInf = PInf"
| "flog NInf = NaN"
| "flog NaN = NaN"

text \<open>\<open>a > b\<close>: every comparison with NaN is false.\<close>

fun fgt :: "float64 \<Rightarrow> float64 \<Rightarrow> bool" where
  "fgt (Fin x) (Fin y) = (y < x)"
| "fgt NaN _ = False"
| "fgt _ NaN = False"
| "fgt PInf b = (b \<noteq> PInf)"
| "fgt (Fin x) NInf = True"
| "fgt _ _ = False"

text \<open>\<open>num.sum\<close> of an array of float64 values; the sum of no value is 0.\<close>

primrec fsum :: "float64 list \<Rightarrow> float64" where
  "fsum [] = Fin 0"
| "fsum (x # xs) = fadd x (fsum xs)"

subsection \<open>Errors, indexing\<close>

datatype error = IndexError | AttributeError | ValueError string

text \<open>
  \<open>b[i]\<close> and \<open>b[i] = v\<close> on a one-dimensional array: a negative index counts from
  the end, an index out of range raises IndexError.
\<close>

definition getitem :: "'a list \<Rightarrow> int \<Rightarrow> error + 'a" where
  "getitem b i =
     (let j = (if i < 0 then i + int (length b) else i)
      in if j < 0 \<or> int (length b) \<le> j then Inl IndexError else Inr (b ! nat j))"

definition setitem :: "'a list \<Rightarrow> int \<Rightarrow> 'a \<Rightarrow> error + 'a list" where
  "setitem b i v =
     (let j = (if i < 0 then i + int (length b) else i)
      in if j < 0 \<or> int (length b) \<le> j then Inl IndexError else Inr (b[nat j := v]))"

subsection \<open>The numpy and scipy routines called by the estimators\<close>

text \<open>\<open>num.median\<close>, \<open>num.mean\<close> and \<open>num.std\<close> (the population standard deviation,
  \<open>ddof=0\<close>); each is NaN, with a warning, on an empty array. The values are those of
  exact arithmetic: in float64 they carry a rounding error, so that, for one, the
  standard deviation of a repeated value need not be exactly 0.\<close>

definition np_median :: "real list \<Rightarrow> float64" where
  "np_median xs =
     (let b = sort xs; n = length xs
      in if n = 0 then NaN
         else if odd n then Fin (b ! (n div 2))
         else Fin ((b ! (n div 2 - 1) + b ! (n div 2)) / 2))"

definition np_mean :: "real list \<Rightarrow> float64" where
  "np_mean xs = (if xs = [] then NaN else Fin (sum_list xs / real (length xs)))"

definition np_std :: "real list \<Rightarrow> float64" where
  "np_std xs =
     (if xs = [] then NaN
      else let mu = sum_list xs / real (length xs)
           in Fin (sqrt (sum_list (map (\<lambda>x. (x - mu)\<^sup>2) xs) / real (length xs))))"

text \<open>
  \<open>num.arange(start, stop, step)\<close>: about \<open>ceil((stop - start) / step)\<close> values near
  \<open>start + i * step\<close>. The length is computed in float64: numpy raises ValueError when
  the quotient is NaN or infinite, which needs no rounding to decide (the step is 0
  or NaN), and returns no value when the step is infinite. Otherwise the values are
  those of the parameter \<open>edges\<close>. In exact arithmetic they are \<open>exact_edges\<close>.
\<close>

definition exact_edges :: "real \<Rightarrow> real \<Rightarrow> real \<Rightarrow> real list" where
  "exact_edges start stop d = map (\<lambda>i. start + real i * d) [0..<nat \<lceil>(stop - start) / d\<rceil>]"

definition arange ::
  "(real \<Rightarrow> real \<Rightarrow> real \<Rightarrow> real list) \<Rightarrow> real \<Rightarrow> real \<Rightarrow> float64 \<Rightarrow> error + real list" where
  "arange edges start stop step =
     (case fdiv (Fin (stop - start)) step of
        NaN \<Rightarrow> Inl (ValueError ''arange: cannot compute length'')
      | PInf \<Rightarrow> Inl (ValueError ''Maximum allowed size exceeded'')
      | NInf \<Rightarrow> Inl (ValueError ''Maximum allowed size exceeded'')
      | Fin v \<Rightarrow>
          (case step of
             Fin d \<Rightarrow> Inr (edges start stop d)
           | _ \<Rightarrow> Inr []))"

text \<open>\<open>num.searchsorted(b, v)\<close>, side left, on a sorted array: the first position
  whose element is not below \<open>v\<close>.\<close>

definition searchsorted :: "real list \<Rightarrow> real \<Rightarrow> nat" where
  "searchsorted b v = length (takeWhile (\<lambda>x. x < v) b)"

text \<open>\<open>num.argmax\<close> on a non-empty array of counts: the first position of the
  largest count.\<close>

fun argmax :: "int list \<Rightarrow> nat" where
  "argmax [] = 0"
| "argmax [x] = 0"
| "argmax (x # y # ys) = (let j = argmax (y # ys) in if x < (y # ys) ! j then Suc j else 0)"

text \<open>
  \<open>scipy.stats.mode(y)[0]\<close>: the scores are the sorted distinct values of \<open>y\<close>; the
  most frequent so far starts at 0 with count 0, and a score replaces it when its
  count is strictly larger.
\<close>

definition mode_step :: "int list \<Rightarrow> int \<times> nat \<Rightarrow> int \<Rightarrow> int \<times> nat" where
  "mode_step y acc score =
     (let c = count_list y score in if snd acc < c then (score, c) else acc)"

definition stats_mode :: "int list \<Rightarrow> int" where
  "stats_mode y = fst (foldl (mode_step y) (0, 0) (sort (remdups y)))"

text \<open>
  \<open>astype(int)\<close> on a float64 array: the C cast to int64, which drops the fraction.
  A value outside the range of int64 becomes the smallest int64 (the result of the
  conversion instruction on x86-64).
\<close>

definition astype_int :: "real \<Rightarrow> int" where
  "astype_int x =
     (let t = (if 0 \<le> x then \<lfloor>x\<rfloor> else - \<lfloor>- x\<rfloor>)
      in if - (2 ^ 63) \<le> t \<and> t < 2 ^ 63 then t else - (2 ^ 63))"

subsection \<open>The class bgFinder\<close>

text \<open>
  An instance holds the flattened sample \<open>data\<close> and, once \<open>_gaussFit\<close> has run, the
  fitted pair \<open>gauss\<close>. The methods whose name starts with an underscore in the source
  carry the prefix \<open>priv\<close>. Those that assign no attribute return their value only;
  \<open>_gaussFit\<close>, the public methods and the dispatcher take the instance and return it
  with their result, so that what a call writes is visible.
\<close>

record bgFinder =
  data :: "real list"
  gauss :: "(float64 \<times> float64) option"

type_synonym optimizer =
  "(float64 \<times> float64 \<Rightarrow> float64) \<Rightarrow> float64 \<times> float64 \<Rightarrow> float64 \<times> float64"

type_synonym result = "(error + float64) \<times> bgFinder"

definition init :: "real list \<Rightarrow> bgFinder" where
  "init d = \<lparr>data = d, gauss = None\<rparr>"

text \<open>
  \<open>_ahist\<close>: the bounds are read from the sorted sample with Python 2's integer
  division in the indices; the counts are the differences of the insertion positions
  of the bin edges, the sample size closing the last bin. The sample is an array of
  floats, so the width is a float64 quotient.
\<close>

definition priv_ahist_with ::
  "(real \<Rightarrow> real \<Rightarrow> real \<Rightarrow> real list) \<Rightarrow> real \<Rightarrow> bgFinder
     \<Rightarrow> error + (int list \<times> float64 \<times> real)" where
  "priv_ahist_with edges nbins st =
     (let b = sort (data st); len = length b
      in case getitem b (int len - max 1 (int len div 100)) of
           Inl e \<Rightarrow> Inl e
         | Inr mx \<Rightarrow>
        (case getitem b (int len - 99 * int len div 100) of
           Inl e \<Rightarrow> Inl e
         | Inr mn \<Rightarrow>
        (let w = fdiv (Fin (mx - mn)) (Fin nbins)
         in case arange edges mn mx w of
              Inl e \<Rightarrow> Inl e
            | Inr es \<Rightarrow>
           (let n = map (\<lambda>v. int (searchsorted b v)) es @ [int len]
            in Inr (map2 (-) (tl n) (butlast n), w, mn)))))"

definition priv_ahist :: "real \<Rightarrow> bgFinder \<Rightarrow> error + (int list \<times> float64 \<times> real)" where
  "priv_ahist nbins st = priv_ahist_with exact_edges nbins st"

text \<open>
  \<open>_stats\<close>: the last and the first count are set to 0, the mode is the left edge of
  the fullest bin. The second component is the width estimate; the comparison
  \<open>b > b[am]/2\<close> halves an integer count with Python 2's integer division.
\<close>

definition priv_stats_with ::
  "(real \<Rightarrow> real \<Rightarrow> real \<Rightarrow> real list) \<Rightarrow> real \<Rightarrow> bgFinder \<Rightarrow> error + (float64 \<times> float64)" where
  "priv_stats_with edges nbins st =
     (case priv_ahist_with edges nbins st of
        Inl e \<Rightarrow> Inl e
      | Inr (b, w, l) \<Rightarrow>
     (case setitem b (int (length b) - 1) 0 of
        Inl e \<Rightarrow> Inl e
      | Inr b1 \<Rightarrow>
     (case setitem b1 0 0 of
        Inl e \<Rightarrow> Inl e
      | Inr b2 \<Rightarrow>
     (let am = argmax b2;
          c = filter (\<lambda>x. b2 ! am div 2 < x) b2
      in Inr (fadd (fmul (Fin (real am)) w) (Fin l),
              fdiv (fdiv (fmul (Fin (real (length c))) w) (Fin 2)) (Fin (141 / 100)))))))"

definition priv_stats :: "real \<Rightarrow> bgFinder \<Rightarrow> error + (float64 \<times> float64)" where
  "priv_stats nbins st = priv_stats_with exact_edges nbins st"

text \<open>
  \<open>_fraserMode\<close>: the sample is scaled and cast to integers, and the median is taken
  of the sample values at the positions of the most frequent integer. The parameter
  \<open>product\<close> is the float64 product of a sample value and the factor.
\<close>

definition priv_fraserMode_with :: "(real \<Rightarrow> real \<Rightarrow> real) \<Rightarrow> real \<Rightarrow> bgFinder \<Rightarrow> float64" where
  "priv_fraserMode_with product multi st =
     (let y = map (\<lambda>v. astype_int (product v multi)) (data st);
          mode = stats_mode y;
          w = filter (\<lambda>i. y ! i = mode) [0..<length y]
      in np_median (map (\<lambda>i. data st ! i) w))"

definition priv_fraserMode :: "real \<Rightarrow> bgFinder \<Rightarrow> float64" where
  "priv_fraserMode multi st = priv_fraserMode_with (*) multi st"

text \<open>\<open>_gaussLike\<close>: the objective handed to the optimizer, written as the source
  computes it.\<close>

definition priv_gaussLike :: "bgFinder \<Rightarrow> float64 \<times> float64 \<Rightarrow> float64" where
  "priv_gaussLike st x =
     (let m = fst x; s = snd x;
          X = fdiv (fneg (fsum (map (\<lambda>v. let r = fsub (Fin v) m in fmul r r) (data st))))
                   (fmul (fmul (Fin 2) s) s);
          X' = fsub X (fmul (Fin (real (length (data st))))
                            (flog (fpow_half (fmul (fmul (fmul (Fin 2) (Fin pi)) s) s))))
      in fneg X')"

text \<open>\<open>_gaussFit\<close>: the optimizer is started at the median and the standard deviation
  of the sample; its result is stored in \<open>gauss\<close> and the first component returned.\<close>

definition priv_gaussFit :: "optimizer \<Rightarrow> bgFinder \<Rightarrow> float64 \<times> bgFinder" where
  "priv_gaussFit fmin st =
     (let med = np_median (data st);
          std = np_std (data st);
          res = fmin (priv_gaussLike st) (med, std)
      in (fst res, st\<lparr>gauss := Some res\<rparr>))"

text \<open>The public methods.\<close>

definition histMode_with ::
  "(real \<Rightarrow> real \<Rightarrow> real \<Rightarrow> real list) \<Rightarrow> real \<Rightarrow> bgFinder \<Rightarrow> result" where
  "histMode_with edges nbins st =
     (case priv_stats_with edges nbins st of
        Inl e \<Rightarrow> (Inl e, st)
      | Inr r \<Rightarrow> (Inr (fst r), st))"

definition histMode :: "real \<Rightarrow> bgFinder \<Rightarrow> result" where
  "histMode nbins st =
     (case priv_stats nbins st of Inl e \<Rightarrow> (Inl e, st) | Inr r \<Rightarrow> (Inr (fst r), st))"

definition median :: "bgFinder \<Rightarrow> result" where
  "median st = (Inr (np_median (data st)), st)"

definition mean :: "bgFinder \<Rightarrow> result" where
  "mean st = (Inr (np_mean (data st)), st)"

definition fraserMode :: "real \<Rightarrow> bgFinder \<Rightarrow> result" where
  "fraserMode multi st = (Inr (priv_fraserMode multi st), st)"

definition gaussFit :: "optimizer \<Rightarrow> bgFinder \<Rightarrow> result" where
  "gaussFit fmin st = (case priv_gaussFit fmin st of (r, st1) \<Rightarrow> (Inr r, st1))"

text \<open>
  \<open>__call__\<close> and \<open>smartBackground\<close> call each other: the dispatcher runs the adaptive
  estimator with its defaults for the name smart, and the adaptive estimator runs the
  dispatcher on the name of its backup method. In \<open>smartBackground\<close> the call of the
  backup method without parameter is not in an else branch: it follows the call with
  the parameter, whose value it replaces unless that call raised.
\<close>

function call :: "optimizer \<Rightarrow> string \<Rightarrow> real option \<Rightarrow> bgFinder \<Rightarrow> result"
  and smartBackground :: "optimizer \<Rightarrow> real \<Rightarrow> string \<Rightarrow> real option \<Rightarrow> bgFinder \<Rightarrow> result"
where
  "call fmin method inp st =
     (if method = ''median'' then (Inr (np_median (data st)), st)
      else if method = ''mean'' then (Inr (np_mean (data st)), st)
      else if method = ''histMode'' then
        (let bins = (case inp of None \<Rightarrow> 50 | Some v \<Rightarrow> v)
         in case priv_stats bins st of Inl e \<Rightarrow> (Inl e, st) | Inr r \<Rightarrow> (Inr (fst r), st))
      else if method = ''fraserMode'' then
        (let n = (case inp of None \<Rightarrow> 1 / 10 | Some v \<Rightarrow> v)
         in (Inr (priv_fraserMode n st), st))
      else if method = ''gaussFit'' then
        (case priv_gaussFit fmin st of (r, st1) \<Rightarrow> (Inr r, st1))
      else if method = ''smart'' then smartBackground fmin (11 / 10) ''fraserMode'' None st
      else (Inl (ValueError (''Unknown method '' @ method)), st))"
| "smartBackground fmin gaussStdLimit backupMode inp st =
     (case priv_gaussFit fmin st of (r, st1) \<Rightarrow>
        (case gauss st1 of
           None \<Rightarrow> (Inl AttributeError, st1)
         | Some (g, s) \<Rightarrow>
             if fgt (fdiv s (fpow_half g)) (Fin gaussStdLimit) then
               (case inp of
                  None \<Rightarrow> call fmin backupMode None st1
                | Some p \<Rightarrow>
                    (case call fmin backupMode (Some p) st1 of
                       (Inl e, st2) \<Rightarrow> (Inl e, st2)
                     | (Inr g1, st2) \<Rightarrow> call fmin backupMode None st2))
             else (Inr g, st1)))"
  by pat_completeness auto
termination
  by (relation "measure (\<lambda>x. case x of
            Inl (f, m, i, s) \<Rightarrow> if m = ''smart'' then 2 else 0
          | Inr (f, l, b, i, s) \<Rightarrow> if b = ''smart'' then 3 else 1)") auto

declare call.simps [simp del] smartBackground.simps [simp del]

subsection \<open>Reference definitions\<close>

text \<open>
  The negative log-likelihood of a sample under a normal distribution of mean \<open>m\<close>
  and standard deviation \<open>s\<close>, as the specification writes it.
\<close>

definition NLL :: "real list \<Rightarrow> real \<Rightarrow> real \<Rightarrow> real" where
  "NLL xs m s =
     (\<Sum>x\<leftarrow>xs. (x - m)\<^sup>2) / (2 * s\<^sup>2) + real (length xs) * ln (sqrt (2 * pi) * s)"

text \<open>
  The bounds of the histogram as the specification gives them: the values of the
  sorted sample at the indices \<open>len - 99*len/100\<close> and \<open>len - max(1, len/100)\<close>, the
  divisions rounding down.
\<close>

definition lower_bound :: "real list \<Rightarrow> real" where
  "lower_bound xs = sort xs ! (length xs - 99 * length xs div 100)"

definition upper_bound :: "real list \<Rightarrow> real" where
  "upper_bound xs = sort xs ! (length xs - max 1 (length xs div 100))"

text \<open>A degenerate sample: no element, or all values identical.\<close>

definition degenerate :: "real list \<Rightarrow> bool" where
  "degenerate xs = (xs = [] \<or> (\<forall>x\<in>set xs. x = hd xs))"

text \<open>
  The median and the standard deviation of a sample, without reference to how numpy
  computes them. A value has rank \<open>j\<close> in the sample when at most \<open>j\<close> values are
  below it and more than \<open>j\<close> are not above it: it is the \<open>j\<close>-th smallest, counting
  from 0. The median is the mean of the values of rank \<open>(n - 1) div 2\<close> and \<open>n div 2\<close>,
  which are the same value when \<open>n\<close> is odd. The standard deviation is the root of the
  mean of the squares minus the square of the mean.
\<close>

definition has_rank :: "real list \<Rightarrow> nat \<Rightarrow> real \<Rightarrow> bool" where
  "has_rank xs j v =
     (length (filter (\<lambda>x. x < v) xs) \<le> j \<and> j < length (filter (\<lambda>x. x \<le> v) xs))"

definition order_stat :: "real list \<Rightarrow> nat \<Rightarrow> real" where
  "order_stat xs j = hd (filter (has_rank xs j) xs)"

definition median_by_rank :: "real list \<Rightarrow> float64" where
  "median_by_rank xs =
     (if xs = [] then NaN
      else Fin ((order_stat xs ((length xs - 1) div 2) + order_stat xs (length xs div 2)) / 2))"

definition std_by_moments :: "real list \<Rightarrow> float64" where
  "std_by_moments xs =
     (if xs = [] then NaN
      else Fin (sqrt ((\<Sum>x\<leftarrow>xs. x\<^sup>2) / real (length xs)
                      - (sum_list xs / real (length xs))\<^sup>2)))"




text \<open>The instance after a Gaussian fit: the result of the optimizer, started at the
  median and the standard deviation of the sample, is stored in \<open>gauss\<close>.\<close>

definition fitted :: "optimizer \<Rightarrow> bgFinder \<Rightarrow> bgFinder" where
  "fitted fmin st =
     st\<lparr>gauss := Some (fmin (priv_gaussLike st) (np_median (data st), np_std (data st)))\<rparr>"

section \<open>Median and standard deviation\<close>

text \<open>\<open>num.median\<close> and \<open>num.std\<close>, as modelled, compute the median and the standard
  deviation of the reference definitions.\<close>

lemma length_filter_sort: "length (filter P (sort xs)) = length (filter P (xs::real list))"
  by (simp add: filter_sort)

lemma sorted_nth_has_rank:
  assumes "j < length xs"
  shows "has_rank xs j (sort xs ! j)"
proof -
  let ?b = "sort xs"
  let ?v = "?b ! j"
  have j: "j < length ?b" using assms by simp
  have srt: "sorted ?b" by simp
  have split: "?b = take j ?b @ drop j ?b" by simp
  have "filter (\<lambda>x. x < ?v) (drop j ?b) = []"
  proof -
    have "\<forall>x\<in>set (drop j ?b). ?v \<le> x"
    proof
      fix x assume "x \<in> set (drop j ?b)"
      then obtain i where i: "i < length (drop j ?b)" "drop j ?b ! i = x"
        by (auto simp: in_set_conv_nth)
      hence "x = ?b ! (j + i)" using j by simp
      moreover have "j + i < length ?b" using i(1) by simp
      ultimately show "?v \<le> x" using srt by (simp add: sorted_nth_mono)
    qed
    thus ?thesis by (auto simp: filter_empty_conv not_less)
  qed
  hence "filter (\<lambda>x. x < ?v) ?b = filter (\<lambda>x. x < ?v) (take j ?b)"
    by (subst split) (simp only: filter_append, simp)
  hence "length (filter (\<lambda>x. x < ?v) ?b) \<le> length (take j ?b)"
    by (simp only:) (rule length_filter_le)
  hence lo: "length (filter (\<lambda>x. x < ?v) xs) \<le> j"
    using j by (simp add: length_filter_sort)
  have "\<forall>x\<in>set (take (Suc j) ?b). x \<le> ?v"
  proof
    fix x assume "x \<in> set (take (Suc j) ?b)"
    then obtain i where i: "i < length (take (Suc j) ?b)" "take (Suc j) ?b ! i = x"
      by (auto simp: in_set_conv_nth)
    hence "x = ?b ! i" "i \<le> j" using j by auto
    thus "x \<le> ?v" using srt j by (simp add: sorted_nth_mono)
  qed
  hence "filter (\<lambda>x. x \<le> ?v) (take (Suc j) ?b) = take (Suc j) ?b"
    by (simp add: filter_id_conv)
  moreover have "?b = take (Suc j) ?b @ drop (Suc j) ?b" by simp
  ultimately have "length (take (Suc j) ?b) \<le> length (filter (\<lambda>x. x \<le> ?v) ?b)"
    by (metis filter_append length_append le_add1)
  hence hi: "j < length (filter (\<lambda>x. x \<le> ?v) xs)"
    using j by (simp add: length_filter_sort)
  show ?thesis using lo hi by (simp add: has_rank_def)
qed

lemma length_filter_mono:
  "(\<And>x. P x \<Longrightarrow> Q x) \<Longrightarrow> length (filter P xs) \<le> length (filter Q xs)"
  by (induction xs) auto

lemma has_rank_unique:
  assumes "has_rank xs j v" and "has_rank xs j v'"
  shows "v = v'"
proof -
  have False if lt: "a < b" and ra: "has_rank xs j a" and rb: "has_rank xs j b" for a b
  proof -
    have "length (filter (\<lambda>x. x \<le> a) xs) \<le> length (filter (\<lambda>x. x < b) xs)"
      using lt by (intro length_filter_mono) simp
    thus False using ra rb by (simp add: has_rank_def)
  qed
  thus ?thesis using assms by (metis linorder_neqE_linordered_idom)
qed

lemma order_stat_sorted:
  assumes "j < length xs"
  shows "order_stat xs j = sort xs ! j"
proof -
  have mem: "sort xs ! j \<in> set xs" using assms by (metis length_sort nth_mem set_sort)
  hence "filter (has_rank xs j) xs \<noteq> []"
    using sorted_nth_has_rank [OF assms] by (auto simp: filter_empty_conv)
  hence "hd (filter (has_rank xs j) xs) \<in> set (filter (has_rank xs j) xs)" by (rule hd_in_set)
  hence "has_rank xs j (order_stat xs j)" by (simp add: order_stat_def)
  thus ?thesis using sorted_nth_has_rank [OF assms] by (rule has_rank_unique)
qed

lemma np_median_by_rank: "np_median xs = median_by_rank xs"
proof (cases "xs = []")
  case True
  thus ?thesis by (simp add: np_median_def median_by_rank_def)
next
  case False
  hence n: "0 < length xs" by simp
  hence a: "length xs div 2 < length xs" and b: "(length xs - 1) div 2 < length xs" by arith+
  show ?thesis
  proof (cases "odd (length xs)")
    case True
    hence "(length xs - 1) div 2 = length xs div 2" by (auto elim: oddE)
    thus ?thesis using False True a
      by (simp add: np_median_def median_by_rank_def order_stat_sorted Let_def)
  next
    case False
    hence "(length xs - 1) div 2 = length xs div 2 - 1" using n by (auto elim!: evenE)
    thus ?thesis using \<open>xs \<noteq> []\<close> False a b
      by (simp add: np_median_def median_by_rank_def order_stat_sorted Let_def)
  qed
qed

lemma sum_squared_deviations:
  "(\<Sum>x\<leftarrow>xs. (x - mu)\<^sup>2)
     = (\<Sum>x\<leftarrow>xs. x\<^sup>2) - 2 * mu * sum_list xs + real (length xs) * mu\<^sup>2"
  by (induction xs) (simp_all add: power2_eq_square algebra_simps)

lemma np_std_by_moments: "np_std xs = std_by_moments xs"
proof (cases "xs = []")
  case True
  thus ?thesis by (simp add: np_std_def std_by_moments_def)
next
  case False
  let ?n = "real (length xs)"
  let ?mu = "sum_list xs / ?n"
  have n: "?n \<noteq> 0" using False by simp
  define S where "S = sum_list xs"
  define Q where "Q = (\<Sum>x\<leftarrow>xs. x\<^sup>2)"
  have "(\<Sum>x\<leftarrow>xs. (x - S / ?n)\<^sup>2) = Q - 2 * (S / ?n) * S + ?n * (S / ?n)\<^sup>2"
    unfolding S_def Q_def by (rule sum_squared_deviations)
  also have "\<dots> / ?n = Q / ?n - (S / ?n)\<^sup>2"
    using n by (simp add: power2_eq_square field_simps)
  finally have "(\<Sum>x\<leftarrow>xs. (x - S / ?n)\<^sup>2) / ?n = Q / ?n - (S / ?n)\<^sup>2" .
  thus ?thesis
    using False unfolding S_def Q_def by (simp add: np_std_def std_by_moments_def Let_def)
qed

section \<open>The Gaussian objective\<close>

lemma data_init: "data (init d) = d"
  by (simp add: init_def)

lemma fsum_squares:
  "fsum (map (\<lambda>v. Fin ((v - m) * (v - m))) xs) = Fin (\<Sum>x\<leftarrow>xs. (x - m)\<^sup>2)"
  by (induction xs) (simp_all add: power2_eq_square)

lemma gaussLike_finite:
  assumes "s \<noteq> 0"
  shows "priv_gaussLike st (Fin m, Fin s) =
         Fin ((\<Sum>x\<leftarrow>data st. (x - m)\<^sup>2) / (2 * s * s)
              + real (length (data st)) * ln (sqrt (2 * pi * s * s)))"
proof -
  have ss: "0 < s * s" using assms by (auto simp: zero_less_mult_iff neq_iff)
  have "0 < (2 * pi) * (s * s)" using ss by (simp add: zero_less_mult_iff)
  hence pos: "0 < 2 * pi * s * s" by (simp add: mult.assoc)
  hence sq: "0 < sqrt (2 * pi * s * s)" by simp
  show ?thesis
    using assms pos sq
    by (simp add: priv_gaussLike_def fsum_squares fsub_def Let_def del: real_sqrt_gt_0_iff)
qed

lemma sqrt_scale: "sqrt (2 * pi * s * s) = sqrt (2 * pi) * \<bar>s\<bar>"
proof -
  have "2 * pi * s * s = (2 * pi) * s\<^sup>2" by (simp add: power2_eq_square)
  thus ?thesis by (simp add: real_sqrt_mult)
qed

lemma gaussLike_NLL_abs:
  "s \<noteq> 0 \<Longrightarrow> priv_gaussLike st (Fin m, Fin s) = Fin (NLL (data st) m \<bar>s\<bar>)"
  by (simp add: gaussLike_finite sqrt_scale NLL_def power2_eq_square)

lemma gaussLike_zero: "priv_gaussLike st (Fin m, Fin 0) = NaN"
proof -
  let ?S = "\<Sum>x\<leftarrow>data st. (x - m)\<^sup>2"
  have nn: "0 \<le> ?S" by (rule sum_list_nonneg) auto
  have "priv_gaussLike st (Fin m, Fin 0) =
        fneg (fsub (fdiv (fneg (Fin ?S)) (Fin 0)) (fmul (Fin (real (length (data st)))) NInf))"
    by (simp add: priv_gaussLike_def Let_def fsub_def fsum_squares)
  also have "\<dots> = NaN"
    using nn by (cases "?S = 0"; cases "data st = []") (simp_all add: fsub_def inf_of_sign_def)
  finally show ?thesis .
qed

lemma median_unsorted_example: "median_by_rank [44, 12, 30, 14] = Fin 22"
  by code_simp

lemma std_unsorted_example: "std_by_moments [44, 12, 30, 14] = Fin 13"
  by (simp add: std_by_moments_def)

text \<open>
  C5. On a non-empty sample, at every mean \<open>m\<close> and every standard deviation
  \<open>s > 0\<close>, the objective \<open>_gaussLike\<close> has the value
  \<open>NLL(m,s) = (\<Sum> (x_i - m)^2) / (2 s^2) + N * ln(sqrt(2 pi) * s)\<close>, and \<open>_gaussFit\<close>
  hands that objective to the optimizer with the starting point (median of the
  sample, standard deviation of the sample), stores the optimizer's result and
  returns its first component. The median is the mean of the two middle values by
  rank, and the standard deviation is that of the sample as a population, the root of
  the mean square minus the squared mean.
\<close>

theorem gaussFit_objective_and_start:
  assumes "data st \<noteq> []" and "0 < s"
  shows "priv_gaussLike st (Fin m, Fin s) = Fin (NLL (data st) m s)
       \<and> priv_gaussFit fmin st =
           (fst (fmin (priv_gaussLike st) (median_by_rank (data st), std_by_moments (data st))),
            st\<lparr>gauss :=
                 Some (fmin (priv_gaussLike st)
                         (median_by_rank (data st), std_by_moments (data st)))\<rparr>)"
  using assms
  by (simp add: gaussLike_NLL_abs priv_gaussFit_def Let_def np_median_by_rank np_std_by_moments)

theorem gaussFit_objective_and_start_witness:
  "data (init [44, 12, 30, 14]) \<noteq> [] \<and> (0::real) < 13
   \<and> priv_gaussLike (init [44, 12, 30, 14]) (Fin 25, Fin 13)
       = Fin (2 + 4 * ln (sqrt (2 * pi) * 13))
   \<and> priv_gaussFit (\<lambda>f x0. x0) (init [44, 12, 30, 14]) =
       (Fin 22, \<lparr>data = [44, 12, 30, 14], gauss = Some (Fin 22, Fin 13)\<rparr>)"
  using gaussFit_objective_and_start [of "init [44, 12, 30, 14]" 13 25 "\<lambda>f x0. x0"]
  by (simp add: init_def NLL_def median_unsorted_example std_unsorted_example)

text \<open>
  C8, as the specification states it: an evaluation of the objective at a standard
  deviation \<open>s \<le> 0\<close> yields an infinite cost. The source has no such guard. At
  \<open>s = -1\<close> the cost of the sample 1, 2, 3 around the mean 2 is finite, the same
  as at \<open>s = 1\<close>.
\<close>

theorem gaussLike_negative_scale_counterexample:
  "priv_gaussLike (init [1, 2, 3]) (Fin 2, Fin (- 1)) = Fin (1 + 3 * ln (sqrt (2 * pi)))
   \<and> priv_gaussLike (init [1, 2, 3]) (Fin 2, Fin (- 1)) \<noteq> PInf"
  by (simp add: gaussLike_NLL_abs NLL_def init_def)

text \<open>
  C8, amended. The objective is evaluated without a guard at \<open>s \<le> 0\<close>. At
  \<open>s < 0\<close> nothing is divided by zero and no logarithm of a non-positive number is
  taken, since \<open>s\<close> enters only as \<open>s * s\<close>: the cost is the finite value
  \<open>NLL(m, -s)\<close>, so the step is not rejected. At \<open>s = 0\<close> the division by
  zero and the logarithm of zero are performed, and the result is NaN.
\<close>

theorem gaussLike_nonpositive_scale:
  "(s < 0 \<longrightarrow> priv_gaussLike st (Fin m, Fin s) = Fin (NLL (data st) m (- s)))
   \<and> priv_gaussLike st (Fin m, Fin 0) = NaN"
  using gaussLike_NLL_abs [of s st m] by (simp add: gaussLike_zero)

theorem gaussLike_nonpositive_scale_witness:
  "(- 2 :: real) < 0
   \<and> priv_gaussLike (init [1, 3]) (Fin 2, Fin (- 2)) = Fin (1 / 4 + 2 * ln (sqrt (2 * pi) * 2))
   \<and> priv_gaussLike (init [1, 3]) (Fin 2, Fin 0) = NaN"
  using gaussLike_nonpositive_scale [of "- 2" "init [1, 3]" 2]
  by (simp add: init_def NLL_def)

section \<open>The dispatcher and the adaptive estimator\<close>

lemma priv_gaussFit_eq:
  "priv_gaussFit fmin st =
     (fst (fmin (priv_gaussLike st) (np_median (data st), np_std (data st))),
      st\<lparr>gauss := Some (fmin (priv_gaussLike st) (np_median (data st), np_std (data st)))\<rparr>)"
  by (simp add: priv_gaussFit_def Let_def)

text \<open>\<open>smartBackground\<close> with the fit written out: the second call of the backup method
  runs on the instance the first one left, unless the first one raised.\<close>

lemma smartBackground_eq:
  "smartBackground fmin gaussStdLimit backupMode inp st =
     (let res = fmin (priv_gaussLike st) (np_median (data st), np_std (data st));
          st1 = st\<lparr>gauss := Some res\<rparr>
      in if fgt (fdiv (snd res) (fpow_half (fst res))) (Fin gaussStdLimit) then
           (case inp of
              None \<Rightarrow> call fmin backupMode None st1
            | Some p \<Rightarrow>
                (case fst (call fmin backupMode (Some p) st1) of
                   Inl e \<Rightarrow> call fmin backupMode (Some p) st1
                 | Inr g1 \<Rightarrow> call fmin backupMode None (snd (call fmin backupMode (Some p) st1))))
         else (Inr (fst res), st1))"
  by (simp add: smartBackground.simps priv_gaussFit_eq Let_def
           split: prod.splits sum.splits option.splits)

lemma priv_gaussLike_gauss: "priv_gaussLike (st\<lparr>gauss := g\<rparr>) = priv_gaussLike st"
  by (rule ext) (simp add: priv_gaussLike_def)

lemma fitted_fitted: "fitted fmin (fitted fmin st) = fitted fmin st"
  by (simp add: fitted_def priv_gaussLike_gauss)

lemma call_basic_state:
  "method \<noteq> ''smart'' \<Longrightarrow>
     snd (call fmin method inp st) = (if method = ''gaussFit'' then fitted fmin st else st)"
  by (simp add: call.simps priv_gaussFit_eq fitted_def Let_def split: sum.splits option.splits)

lemma smartBackground_basic_state:
  assumes "backupMode \<noteq> ''smart''"
  shows "snd (smartBackground fmin gaussStdLimit backupMode inp st) = fitted fmin st"
proof -
  have c: "snd (call fmin backupMode i (fitted fmin st)) = fitted fmin st" for i
    using assms by (simp add: call_basic_state fitted_fitted)
  show ?thesis
    by (simp add: smartBackground_eq Let_def c fitted_def [symmetric]
          split: sum.splits option.splits)
qed

lemma call_state:
  "snd (call fmin method inp st)
     = (if method = ''gaussFit'' \<or> method = ''smart'' then fitted fmin st else st)"
proof (cases "method = ''smart''")
  case True
  thus ?thesis by (simp add: call.simps smartBackground_basic_state)
next
  case False
  thus ?thesis by (simp add: call_basic_state)
qed

lemma smartBackground_state:
  "snd (smartBackground fmin gaussStdLimit backupMode inp st) = fitted fmin st"
proof -
  have c: "snd (call fmin backupMode i (fitted fmin st)) = fitted fmin st" for i
    by (simp add: call_state fitted_fitted)
  show ?thesis
    by (simp add: smartBackground_eq Let_def c fitted_def [symmetric]
          split: sum.splits option.splits)
qed

lemma call_data: "data (snd (call fmin method inp st)) = data st"
  by (simp add: call_state fitted_def)

text \<open>
  C9. No estimator operation changes the stored sample, and \<open>gauss\<close> is the only
  attribute written. \<open>median\<close>, \<open>mean\<close>, \<open>histMode\<close> and \<open>fraserMode\<close>, called
  directly or by name, return the instance as they received it, and so does the
  dispatcher for an unknown name. \<open>gaussFit\<close> and the adaptive estimator, called
  directly or by name, whatever the backup method and the parameters, return the
  instance with the fit result stored in \<open>gauss\<close> and the sample as it was.
\<close>

theorem estimators_keep_sample:
  "snd (median st) = st \<and> snd (mean st) = st
   \<and> snd (histMode nbins st) = st \<and> snd (fraserMode multi st) = st
   \<and> snd (gaussFit fmin st) = fitted fmin st
   \<and> snd (smartBackground fmin gaussStdLimit backupMode inp st) = fitted fmin st
   \<and> snd (call fmin method inp st)
       = (if method = ''gaussFit'' \<or> method = ''smart'' then fitted fmin st else st)
   \<and> data (fitted fmin st) = data st
   \<and> gauss (fitted fmin st)
       = Some (fmin (priv_gaussLike st) (np_median (data st), np_std (data st)))"
  by (simp add: median_def mean_def histMode_def fraserMode_def gaussFit_def priv_gaussFit_eq
        smartBackground_state call_state fitted_def split: sum.splits)

theorem estimators_keep_sample_witness:
  "snd (call (\<lambda>f x0. x0) ''histMode'' (Some 2) (init [1, 2, 3, 4, 5])) = init [1, 2, 3, 4, 5]
   \<and> snd (smartBackground (\<lambda>f x0. x0) (11 / 10) ''gaussFit'' (Some 2) (init [1, 2, 3]))
       = \<lparr>data = [1, 2, 3], gauss = Some (Fin 2, Fin (sqrt (2 / 3)))\<rparr>"
  using estimators_keep_sample
    [of "init [1, 2, 3, 4, 5]" _ _ "\<lambda>f x0. x0" _ _ "Some 2" "''histMode''"]
    estimators_keep_sample
    [where st = "init [1, 2, 3]" and fmin = "\<lambda>f x0. x0" and gaussStdLimit = "11 / 10"
       and backupMode = "''gaussFit''" and inp = "Some 2"]
  by (simp add: init_def fitted_def np_median_def np_std_def)

text \<open>
  C10. Called with the name median, mean, gaussFit or smart, the dispatcher returns
  the same result and the same instance whatever the optional parameter: the four
  branches do not read it. For smart the dispatcher runs the adaptive estimator with
  all its defaults (limit 1.1, backup fraserMode, no parameter).
\<close>

theorem call_ignores_parameter:
  "(method \<in> {''median'', ''mean'', ''gaussFit'', ''smart''} \<longrightarrow>
      call fmin method inp st = call fmin method None st)
   \<and> call fmin ''smart'' inp st = smartBackground fmin (11 / 10) ''fraserMode'' None st"
  by (auto simp: call.simps)

theorem call_ignores_parameter_witness:
  "''smart'' \<in> {''median'', ''mean'', ''gaussFit'', ''smart''}
   \<and> call (\<lambda>f x0. (Fin 100, Fin 20)) ''smart'' (Some 3) (init [81, 90, 100, 110, 119])
       = call (\<lambda>f x0. (Fin 100, Fin 20)) ''smart'' None (init [81, 90, 100, 110, 119])"
  using call_ignores_parameter
    [of "''smart''" "\<lambda>f x0. (Fin 100, Fin 20)" "Some 3" "init [81, 90, 100, 110, 119]"]
  by simp

section \<open>The adaptive estimator\<close>

lemma priv_fraserMode_gauss: "priv_fraserMode n (st\<lparr>gauss := g\<rparr>) = priv_fraserMode n st"
  by (simp add: priv_fraserMode_def priv_fraserMode_with_def)

text \<open>
  The sample 12, 14, 30, 44 has mean 25 and standard deviation 13, and its negative
  log-likelihood is smallest at that pair. The examples below run the estimators on
  it with an optimizer that returns this pair.
\<close>

lemma example_squares: "(\<Sum>x\<leftarrow>[12, 14, 30, 44]. (x - m)\<^sup>2) = 4 * (m - 25)\<^sup>2 + (676::real)"
  by (simp add: power2_eq_square algebra_simps)

lemma example_fit_is_minimum:
  assumes "0 < s"
  shows "NLL [12, 14, 30, 44] 25 13 \<le> NLL [12, 14, 30, 44] m s"
proof -
  let ?u = "169 / s\<^sup>2"
  have u: "0 < ?u" using assms by simp
  have lnu: "ln ?u \<le> ?u - 1" using u by (rule ln_le_minus_one)
  have "ln ?u = ln 169 - ln (s\<^sup>2)" using assms by (simp add: ln_div)
  also have "ln (169::real) = 2 * ln 13"
  proof -
    have "(169::real) = 13\<^sup>2" by simp
    thus ?thesis by (simp only: ln_realpow)
  qed
  also have "ln (s\<^sup>2) = 2 * ln s" using assms by (simp add: ln_realpow)
  finally have "2 * ln 13 - 2 * ln s \<le> 169 / s\<^sup>2 - 1" using lnu by simp
  hence core: "2 + 4 * ln 13 \<le> 338 / s\<^sup>2 + 4 * ln s" by simp
  have "(676::real) \<le> 4 * (m - 25)\<^sup>2 + 676" by simp
  hence "676 / (2 * s\<^sup>2) \<le> (4 * (m - 25)\<^sup>2 + 676) / (2 * s\<^sup>2)"
    using assms by (intro divide_right_mono) simp_all
  hence sq: "338 / s\<^sup>2 \<le> (4 * (m - 25)\<^sup>2 + 676) / (2 * s\<^sup>2)" by simp
  have l13: "ln (sqrt (2 * pi) * 13) = ln (sqrt (2 * pi)) + ln 13"
    by (intro ln_mult_pos) simp_all
  have ls: "ln (sqrt (2 * pi) * s) = ln (sqrt (2 * pi)) + ln s"
    using assms by (intro ln_mult_pos) simp_all
  have "NLL [12, 14, 30, 44] 25 13 = 2 + 4 * ln (sqrt (2 * pi)) + 4 * ln 13"
    unfolding NLL_def example_squares l13 by simp
  moreover have "NLL [12, 14, 30, 44] m s
      = (4 * (m - 25)\<^sup>2 + 676) / (2 * s\<^sup>2) + 4 * ln (sqrt (2 * pi)) + 4 * ln s"
    unfolding NLL_def example_squares ls by simp
  ultimately show ?thesis using core sq by linarith
qed

lemma fraserMode_tenth_example:
  "priv_fraserMode (1 / 10) (init [12, 14, 30, 44]) = Fin 13"
  by code_simp

lemma fraserMode_one_example:
  "priv_fraserMode 1 (init [12, 14, 30, 44]) = Fin 12"
  by code_simp

lemma call_dispatch:
  "(method \<notin> {''median'', ''mean'', ''histMode'', ''fraserMode'', ''gaussFit'', ''smart''} \<longrightarrow>
      call fmin method inp st = (Inl (ValueError (''Unknown method '' @ method)), st))
   \<and> call fmin ''median'' inp st = median st
   \<and> call fmin ''mean'' inp st = mean st
   \<and> call fmin ''gaussFit'' inp st = gaussFit fmin st
   \<and> call fmin ''histMode'' (Some p) st = histMode p st
   \<and> call fmin ''histMode'' None st = histMode 50 st
   \<and> call fmin ''fraserMode'' (Some p) st = fraserMode p st
   \<and> call fmin ''fraserMode'' None st = fraserMode (1 / 10) st"
  by (simp add: call.simps median_def mean_def gaussFit_def histMode_def fraserMode_def)

text \<open>
  C1. When the Gaussian fit of the sample yields a finite pair (mean \<open>g\<close>, standard
  deviation \<open>s\<close>) with \<open>g > 0\<close>: if \<open>s / sqrt g \<le> gaussStdLimit\<close> the adaptive
  estimator returns the fitted mean \<open>g\<close>; if \<open>s / sqrt g > gaussStdLimit\<close> it returns,
  instead of \<open>g\<close>, a result of the dispatcher run on the backup method's name over the
  same sample, which with the default backup is the value of \<open>fraserMode\<close> at its
  default 0.1.
\<close>

theorem smartBackground_threshold:
  assumes fit: "fmin (priv_gaussLike st) (np_median (data st), np_std (data st)) = (Fin g, Fin s)"
    and pos: "0 < g"
  shows "(s / sqrt g \<le> gaussStdLimit \<longrightarrow>
            smartBackground fmin gaussStdLimit backupMode inp st
              = (Inr (Fin g), st\<lparr>gauss := Some (Fin g, Fin s)\<rparr>))
       \<and> (gaussStdLimit < s / sqrt g \<longrightarrow>
            (\<exists>st'. data st' = data st
                \<and> (smartBackground fmin gaussStdLimit backupMode inp st = call fmin backupMode None st'
                   \<or> smartBackground fmin gaussStdLimit backupMode inp st = call fmin backupMode inp st'))
          \<and> smartBackground fmin gaussStdLimit backupMode None st
              = call fmin backupMode None (st\<lparr>gauss := Some (Fin g, Fin s)\<rparr>)
          \<and> smartBackground fmin gaussStdLimit ''fraserMode'' None st
              = fraserMode (1 / 10) (st\<lparr>gauss := Some (Fin g, Fin s)\<rparr>))"
proof (intro conjI impI)
  assume "s / sqrt g \<le> gaussStdLimit"
  thus "smartBackground fmin gaussStdLimit backupMode inp st
          = (Inr (Fin g), st\<lparr>gauss := Some (Fin g, Fin s)\<rparr>)"
    using pos by (simp add: smartBackground_eq fit Let_def)
next
  assume fire: "gaussStdLimit < s / sqrt g"
  let ?st1 = "st\<lparr>gauss := Some (Fin g, Fin s)\<rparr>"
  have eq: "smartBackground fmin gaussStdLimit backupMode i st =
     (case i of
        None \<Rightarrow> call fmin backupMode None ?st1
      | Some p \<Rightarrow>
          (case fst (call fmin backupMode (Some p) ?st1) of
             Inl e \<Rightarrow> call fmin backupMode (Some p) ?st1
           | Inr g1 \<Rightarrow> call fmin backupMode None (snd (call fmin backupMode (Some p) ?st1))))"
    for i backupMode
    using pos fire by (simp add: smartBackground_eq fit Let_def)
  show "smartBackground fmin gaussStdLimit backupMode None st = call fmin backupMode None ?st1"
    by (simp add: eq)
  show "smartBackground fmin gaussStdLimit ''fraserMode'' None st = fraserMode (1 / 10) ?st1"
    by (simp add: eq call.simps fraserMode_def)
  show "\<exists>st'. data st' = data st
          \<and> (smartBackground fmin gaussStdLimit backupMode inp st = call fmin backupMode None st'
             \<or> smartBackground fmin gaussStdLimit backupMode inp st = call fmin backupMode inp st')"
  proof (cases inp)
    case None
    thus ?thesis by (intro exI[of _ ?st1]) (simp add: eq)
  next
    case (Some p)
    show ?thesis
    proof (cases "fst (call fmin backupMode (Some p) ?st1)")
      case (Inl e)
      thus ?thesis using Some by (intro exI[of _ ?st1]) (simp add: eq)
    next
      case (Inr g1)
      thus ?thesis using Some
        by (intro exI[of _ "snd (call fmin backupMode (Some p) ?st1)"]) (simp add: eq call_data)
    qed
  qed
qed

theorem smartBackground_threshold_witness:
  "(0::real) < 25 \<and> (13::real) / sqrt 25 \<le> 3 \<and> (11 / 10 :: real) < 13 / sqrt 25
   \<and> smartBackground (\<lambda>f x0. (Fin 25, Fin 13)) 3 ''fraserMode'' None (init [12, 14, 30, 44])
       = (Inr (Fin 25), (init [12, 14, 30, 44])\<lparr>gauss := Some (Fin 25, Fin 13)\<rparr>)
   \<and> smartBackground (\<lambda>f x0. (Fin 25, Fin 13)) (11 / 10) ''fraserMode'' None (init [12, 14, 30, 44])
       = (Inr (Fin 13), (init [12, 14, 30, 44])\<lparr>gauss := Some (Fin 25, Fin 13)\<rparr>)"
  using smartBackground_threshold [where fmin = "\<lambda>f x0. (Fin 25, Fin 13)" and g = 25 and s = 13
      and st = "init [12, 14, 30, 44]" and gaussStdLimit = 3 and backupMode = "''fraserMode''"
      and inp = None]
    smartBackground_threshold [where fmin = "\<lambda>f x0. (Fin 25, Fin 13)" and g = 25 and s = 13
      and st = "init [12, 14, 30, 44]" and gaussStdLimit = "11 / 10"
      and backupMode = "''fraserMode''" and inp = None]
  by (simp add: call.simps fraserMode_def priv_fraserMode_gauss fraserMode_tenth_example)

text \<open>
  C2 says that, when the contamination test fires and a parameter for the backup
  method is supplied, the value returned is the backup estimator's value at that
  parameter. The source calls the backup method with the parameter and then, the
  second call not being in an else branch, calls it again without, and returns the
  second value. On the sample 12, 14, 30, 44 with the parameter 1 the value returned
  is 13, the value of \<open>fraserMode\<close> at its default 0.1, where \<open>fraserMode(1)\<close> is 12.
\<close>

theorem smartBackground_parameter_overwritten:
  "smartBackground (\<lambda>f x0. (Fin 25, Fin 13)) (11 / 10) ''fraserMode'' (Some 1) (init [12, 14, 30, 44])
     = (Inr (Fin 13), (init [12, 14, 30, 44])\<lparr>gauss := Some (Fin 25, Fin 13)\<rparr>)
   \<and> fraserMode 1 ((init [12, 14, 30, 44])\<lparr>gauss := Some (Fin 25, Fin 13)\<rparr>)
     = (Inr (Fin 12), (init [12, 14, 30, 44])\<lparr>gauss := Some (Fin 25, Fin 13)\<rparr>)"
  by (simp add: smartBackground_eq call.simps fraserMode_def priv_fraserMode_gauss fraserMode_tenth_example
        fraserMode_one_example)

text \<open>
  C6 says that the dispatcher, given a recognized name and a parameter, returns what
  the direct method returns with that parameter. That holds for histMode and
  fraserMode (\<open>call_dispatch\<close>), and an unknown name raises. For smart, whose
  parameter the class documentation describes as the limit on
  \<open>standard deviation / mean**0.5\<close>, the dispatcher drops it: on the sample
  12, 14, 30, 44, whose ratio is 2.6, the call by name with the limit 3 returns the
  backup value 13, where \<open>smartBackground(3)\<close> returns the fitted mean 25.
\<close>

theorem call_smart_drops_limit:
  "call (\<lambda>f x0. (Fin 25, Fin 13)) ''smart'' (Some 3) (init [12, 14, 30, 44])
     = (Inr (Fin 13), (init [12, 14, 30, 44])\<lparr>gauss := Some (Fin 25, Fin 13)\<rparr>)
   \<and> smartBackground (\<lambda>f x0. (Fin 25, Fin 13)) 3 ''fraserMode'' None (init [12, 14, 30, 44])
     = (Inr (Fin 25), (init [12, 14, 30, 44])\<lparr>gauss := Some (Fin 25, Fin 13)\<rparr>)"
  by (simp add: smartBackground_eq call.simps fraserMode_def priv_fraserMode_gauss fraserMode_tenth_example)

section \<open>The quantized mode\<close>












section \<open>The histogram mode\<close>

lemma getitem_in_range:
  "0 \<le> i \<Longrightarrow> i < int (length b) \<Longrightarrow> getitem b i = Inr (b ! nat i)"
  by (simp add: getitem_def)

lemma setitem_in_range:
  "0 \<le> i \<Longrightarrow> i < int (length b) \<Longrightarrow> setitem b i v = Inr (b[nat i := v])"
  by (simp add: setitem_def)

lemma argmax_first_max:
  "xs \<noteq> [] \<Longrightarrow>
     argmax xs < length xs
     \<and> (\<forall>j<length xs. xs ! j \<le> xs ! argmax xs)
     \<and> (\<forall>j<argmax xs. xs ! j < xs ! argmax xs)"
proof (induction xs rule: argmax.induct)
  case 1
  then show ?case by simp
next
  case (2 x)
  then show ?case by simp
next
  case (3 x y ys)
  let ?t = "y # ys"
  let ?j = "argmax ?t"
  from 3 have IH: "?j < length ?t" "\<forall>k<length ?t. ?t ! k \<le> ?t ! ?j" "\<forall>k<?j. ?t ! k < ?t ! ?j"
    by simp_all
  show ?case
  proof (cases "x < ?t ! ?j")
    case True
    hence am: "argmax (x # ?t) = Suc ?j" by (simp add: Let_def)
    have "\<forall>k<length (x # ?t). (x # ?t) ! k \<le> ?t ! ?j"
    proof (intro allI impI)
      fix k assume "k < length (x # ?t)"
      thus "(x # ?t) ! k \<le> ?t ! ?j" using True IH(2) by (cases k) auto
    qed
    moreover have "\<forall>k<Suc ?j. (x # ?t) ! k < ?t ! ?j"
    proof (intro allI impI)
      fix k assume "k < Suc ?j"
      thus "(x # ?t) ! k < ?t ! ?j" using True IH(3) by (cases k) auto
    qed
    ultimately show ?thesis using IH(1) by (simp only: am) simp
  next
    case False
    hence am: "argmax (x # ?t) = 0" by (simp add: Let_def)
    have "\<forall>k<length (x # ?t). (x # ?t) ! k \<le> x"
    proof (intro allI impI)
      fix k assume k: "k < length (x # ?t)"
      show "(x # ?t) ! k \<le> x"
      proof (cases k)
        case 0 thus ?thesis by simp
      next
        case (Suc k')
        hence "?t ! k' \<le> ?t ! ?j" using k IH(2) by simp
        thus ?thesis using False Suc by simp
      qed
    qed
    thus ?thesis by (simp only: am) simp
  qed
qed

lemma bounds_read:
  assumes "2 \<le> length xs"
  shows "getitem (sort xs) (int (length (sort xs)) - max 1 (int (length (sort xs)) div 100))
           = Inr (upper_bound xs)"
    and "getitem (sort xs) (int (length (sort xs)) - 99 * int (length (sort xs)) div 100)
           = Inr (lower_bound xs)"
proof -
  let ?n = "length xs"
  have d1: "int ?n div 100 = int (?n div 100)" by (simp add: zdiv_int)
  have d2: "99 * int ?n div 100 = int (99 * ?n div 100)" by (simp add: zdiv_int)
  have "max 1 (int ?n div 100) = int (max 1 (?n div 100))" by (simp add: d1 max_def)
  hence a: "nat (int ?n - max 1 (int ?n div 100)) = ?n - max 1 (?n div 100)"
    by (simp only: nat_diff_distrib' nat_int)
  have b: "nat (int ?n - 99 * int ?n div 100) = ?n - 99 * ?n div 100"
    by (simp only: d2 nat_diff_distrib' nat_int)
  have r1: "0 \<le> int ?n - max 1 (int ?n div 100)" "int ?n - max 1 (int ?n div 100) < int ?n"
    using assms by (auto simp: max_def)
  have r2: "0 \<le> int ?n - 99 * int ?n div 100" "int ?n - 99 * int ?n div 100 < int ?n"
    using assms by auto
  show "getitem (sort xs) (int (length (sort xs)) - max 1 (int (length (sort xs)) div 100))
           = Inr (upper_bound xs)"
    using r1 a by (simp add: getitem_in_range upper_bound_def)
  show "getitem (sort xs) (int (length (sort xs)) - 99 * int (length (sort xs)) div 100)
           = Inr (lower_bound xs)"
    using r2 b by (simp add: getitem_in_range lower_bound_def)
qed

lemma arange_regular:
  assumes "lo < hi" and "0 < nb"
  shows "arange edges lo hi (Fin ((hi - lo) / nb)) = Inr (edges lo hi ((hi - lo) / nb))"
  using assms by (simp add: arange_def)

lemma exact_edges_length:
  assumes "lo < hi" and "0 < nbins"
  shows "length (exact_edges lo hi ((hi - lo) / real nbins)) = nbins"
  using assms by (simp add: exact_edges_def)

lemma priv_ahist_regular:
  assumes "2 \<le> length (data st)" and "lower_bound (data st) < upper_bound (data st)" and "0 < nb"
  shows "priv_ahist_with edges nb st =
     (let w = (upper_bound (data st) - lower_bound (data st)) / nb;
          n = map (\<lambda>v. int (searchsorted (sort (data st)) v))
                  (edges (lower_bound (data st)) (upper_bound (data st)) w)
              @ [int (length (data st))]
      in Inr (map2 (-) (tl n) (butlast n), Fin w, lower_bound (data st)))"
  using assms
  by (simp add: priv_ahist_with_def Let_def bounds_read[unfolded length_sort] arange_regular)


lemma histMode_two_values_example:
  "fst (histMode 50 (init [1, 2])) = Inl (ValueError ''arange: cannot compute length'')"
  by code_simp

lemma histMode_tie_example:
  "histMode_with exact_edges 4 (init [1, 2, 3, 3, 3, 4, 5, 6, 7, 8, 9])
     = (Inr (Fin (15 / 4)), init [1, 2, 3, 3, 3, 4, 5, 6, 7, 8, 9])"
  by code_simp

lemma bounds_tie_example:
  "lower_bound [1, 2, 3, 3, 3, 4, 5, 6, 7, 8, 9] = 2
   \<and> upper_bound [1, 2, 3, 3, 3, 4, 5, 6, 7, 8, 9] = 9"
  by code_simp

lemma edges_tie_example:
  "exact_edges 2 9 (7 / 4) = [2, 15 / 4, 11 / 2, 29 / 4]"
  by code_simp

text \<open>
  C4, as the specification states it, covers every sample that is not empty and
  whose values are not all identical. The sample 1, 2 is one, and both bounds are
  read at index 1 of the sorted sample: the bin width is 0, \<open>num.arange\<close> cannot
  compute a length, and no value is returned.
\<close>

theorem histMode_two_values_counterexample:
  "\<not> degenerate [1, 2] \<and> data (init [1, 2]) = [1, 2]
   \<and> fst (histMode 50 (init [1, 2])) = Inl (ValueError ''arange: cannot compute length'')"
  by (simp add: histMode_two_values_example degenerate_def data_init)

text \<open>
  C4, amended. For every sample of at least two values whose bounds satisfy
  \<open>lower < upper\<close>, where \<open>lower\<close> and \<open>upper\<close> are the values of the sorted sample at
  the indices \<open>len - 99*len/100\<close> and \<open>len - max(1, len/100)\<close>, every positive integer
  \<open>nbins\<close>, and whatever bin edges \<open>num.arange\<close> computes, provided it yields at least
  one: \<open>_ahist\<close> returns one count for each edge, with the bin width
  \<open>(upper - lower) / nbins\<close> and the lower bound, and \<open>histMode\<close> returns
  \<open>am * bin_width + lower\<close>, where \<open>am\<close> is the position of the largest count after the
  last and the first count have been set to 0, the lowest such position. In exact
  arithmetic the edges, and so the counts, are \<open>nbins\<close>.
\<close>

theorem histMode_regular:
  assumes "2 \<le> length (data st)"
    and "lower_bound (data st) < upper_bound (data st)"
    and "0 < nbins"
    and "edges (lower_bound (data st)) (upper_bound (data st))
           ((upper_bound (data st) - lower_bound (data st)) / real nbins) \<noteq> []"
  shows "\<exists>counts am.
      priv_ahist_with edges (real nbins) st
        = Inr (counts, Fin ((upper_bound (data st) - lower_bound (data st)) / real nbins),
               lower_bound (data st))
    \<and> length counts
        = length (edges (lower_bound (data st)) (upper_bound (data st))
                   ((upper_bound (data st) - lower_bound (data st)) / real nbins))
    \<and> am < length counts
    \<and> (\<forall>j<length counts.
          counts[length counts - 1 := 0, 0 := 0] ! j \<le> counts[length counts - 1 := 0, 0 := 0] ! am)
    \<and> (\<forall>j<am.
          counts[length counts - 1 := 0, 0 := 0] ! j < counts[length counts - 1 := 0, 0 := 0] ! am)
    \<and> histMode_with edges (real nbins) st
        = (Inr (Fin (real am * ((upper_bound (data st) - lower_bound (data st)) / real nbins)
                     + lower_bound (data st))), st)
    \<and> length (exact_edges (lower_bound (data st)) (upper_bound (data st))
                ((upper_bound (data st) - lower_bound (data st)) / real nbins)) = nbins"
proof -
  let ?w = "(upper_bound (data st) - lower_bound (data st)) / real nbins"
  let ?l = "lower_bound (data st)"
  let ?es = "edges ?l (upper_bound (data st)) ?w"
  obtain counts where ah: "priv_ahist_with edges (real nbins) st = Inr (counts, Fin ?w, ?l)"
    and len: "length counts = length ?es"
    using assms(1-3) priv_ahist_regular [of st "real nbins" edges] by (simp add: Let_def)
  let ?L = "length counts"
  let ?cz = "counts[?L - 1 := 0, 0 := 0]"
  have pos: "0 < ?L" using len assms(4) by simp
  hence ne: "?cz \<noteq> []" by auto
  have s1: "setitem counts (int ?L - 1) 0 = Inr (counts[?L - 1 := 0])"
    using pos by (simp add: setitem_def nat_diff_distrib')
  have s2: "setitem (counts[?L - 1 := 0]) 0 0 = Inr ?cz"
    using pos by (simp add: setitem_def)
  have "\<exists>u. priv_stats_with edges (real nbins) st = Inr (Fin (real (argmax ?cz) * ?w + ?l), u)"
    using s1 s2 by (simp add: priv_stats_with_def ah Let_def)
  hence hm: "histMode_with edges (real nbins) st = (Inr (Fin (real (argmax ?cz) * ?w + ?l)), st)"
    by (auto simp: histMode_with_def)
  from argmax_first_max [OF ne]
  have am: "argmax ?cz < ?L" "\<forall>j<?L. ?cz ! j \<le> ?cz ! argmax ?cz"
    "\<forall>j<argmax ?cz. ?cz ! j < ?cz ! argmax ?cz"
    by simp_all
  have ex: "length (exact_edges ?l (upper_bound (data st)) ?w) = nbins"
    using assms(2,3) by (rule exact_edges_length)
  show ?thesis
    using ah len am hm ex by blast
qed

theorem histMode_regular_witness:
  "2 \<le> length (data (init [1, 2, 3, 3, 3, 4, 5, 6, 7, 8, 9]))
   \<and> lower_bound (data (init [1, 2, 3, 3, 3, 4, 5, 6, 7, 8, 9]))
       < upper_bound (data (init [1, 2, 3, 3, 3, 4, 5, 6, 7, 8, 9]))
   \<and> (0::nat) < 4
   \<and> exact_edges 2 9 ((9 - 2) / real 4) \<noteq> []
   \<and> histMode_with exact_edges (real 4) (init [1, 2, 3, 3, 3, 4, 5, 6, 7, 8, 9])
       = (Inr (Fin (1 * ((9 - 2) / 4) + 2)), init [1, 2, 3, 3, 3, 4, 5, 6, 7, 8, 9])"
  using histMode_regular [of "init [1, 2, 3, 3, 3, 4, 5, 6, 7, 8, 9]" 4 exact_edges]
  by (simp add: data_init bounds_tie_example edges_tie_example histMode_tie_example)

section \<open>Degenerate samples\<close>







end
